theory Spec2Isabelle
  imports Complex_Main "HOL-Library.Sublist" "HOL-Library.AList" "HOL-Library.Word"
begin

section \<open>Strings and paths\<close>

text \<open>
  The engine is \<^verbatim>\<open>ArchiveExtractor\<close> of \<^verbatim>\<open>src/archive_extractor.py\<close>
  (\<^verbatim>\<open>src/extrair_arquivos.py\<close> is the same code with Portuguese messages).
  Python strings are modelled as \<^typ>\<open>string\<close>; the only characters the engine
  inspects are the ASCII ones of its four patterns.
\<close>

type_synonym path = string
type_synonym bytes = "8 word list"

text \<open>
  \<^verbatim>\<open>str.lower()\<close>: the letters \<^verbatim>\<open>A\<close>..\<^verbatim>\<open>Z\<close> (codes 65..90) move to
  \<^verbatim>\<open>a\<close>..\<^verbatim>\<open>z\<close>, every other byte stays.
\<close>

definition lower_char :: "char \<Rightarrow> char" where
  "lower_char c =
     (let n = (of_char c :: nat) in if 65 \<le> n \<and> n \<le> 90 then char_of (n + 32) else c)"

definition lower :: "string \<Rightarrow> string" where
  "lower s = map lower_char s"

text \<open>\<^verbatim>\<open>s.endswith(suf)\<close> and \<^verbatim>\<open>sub in s\<close>.\<close>

definition endswith :: "string \<Rightarrow> string \<Rightarrow> bool" where
  "endswith s suf = suffix suf s"

definition contains :: "string \<Rightarrow> string \<Rightarrow> bool" where
  "contains s sub = sublist sub s"

text \<open>
  \<^verbatim>\<open>s.split(sep)[0]\<close> for a non-empty separator: the text before the first
  occurrence of \<^verbatim>\<open>sep\<close>, or all of \<^verbatim>\<open>s\<close> when there is none.
\<close>

fun split_first :: "string \<Rightarrow> string \<Rightarrow> string" where
  "split_first sep [] = []"
| "split_first sep (c # cs) = (if prefix sep (c # cs) then [] else c # split_first sep cs)"

text \<open>
  \<^verbatim>\<open>os.path.basename\<close>, \<^verbatim>\<open>os.path.dirname\<close> and \<^verbatim>\<open>os.path.join\<close> as
  \<^verbatim>\<open>posixpath\<close> defines them (the separator is \<^verbatim>\<open>/\<close>).
\<close>

definition basename :: "path \<Rightarrow> string" where
  "basename p = rev (takeWhile (\<lambda>c. c \<noteq> CHR ''/'') (rev p))"

definition dirname :: "path \<Rightarrow> path" where
  "dirname p =
     (let head = rev (dropWhile (\<lambda>c. c \<noteq> CHR ''/'') (rev p))
      in if head \<noteq> [] \<and> head \<noteq> replicate (length head) CHR ''/''
         then rev (dropWhile (\<lambda>c. c = CHR ''/'') (rev head))
         else head)"

definition os_path_join :: "path \<Rightarrow> string \<Rightarrow> path" where
  "os_path_join a b =
     (if prefix ''/'' b then b
      else if a = [] \<or> endswith a ''/'' then a @ b
      else a @ ''/'' @ b)"

text \<open>
  The format \<^verbatim>\<open>{i:03d}\<close>: the decimal digits of \<^verbatim>\<open>i\<close>, padded on the left with
  zeros to at least three characters.
\<close>

definition digit_char :: "nat \<Rightarrow> char" where
  "digit_char d = char_of (48 + d)"

fun str_nat :: "nat \<Rightarrow> string" where
  "str_nat n = (if n < 10 then [digit_char n] else str_nat (n div 10) @ [digit_char (n mod 10)])"

definition fmt_03d :: "nat \<Rightarrow> string" where
  "fmt_03d i = replicate (3 - length (str_nat i)) CHR ''0'' @ str_nat i"

text \<open>Reading a decimal numeral back, used to tell the segment names apart.\<close>

definition digit_val :: "char \<Rightarrow> nat" where
  "digit_val c = of_char c - 48"

definition dec_val :: "string \<Rightarrow> nat" where
  "dec_val s = foldl (\<lambda>a c. 10 * a + digit_val c) 0 s"

declare str_nat.simps [simp del]

section \<open>Facts about the string functions\<close>

lemma endswith_last:
  assumes "endswith s (xs @ [x])"
  shows "s \<noteq> [] \<and> last s = x"
proof -
  from assms obtain zs where "s = zs @ xs @ [x]"
    by (auto simp: endswith_def suffix_def)
  then show ?thesis by simp
qed

lemma endswith_zip_not_rar: "endswith s ''.zip'' \<Longrightarrow> \<not> endswith s ''.rar''"
  using endswith_last [of s "''.zi''" "CHR ''p''"] endswith_last [of s "''.ra''" "CHR ''r''"]
  by auto

lemma endswith_zip_not_7z: "endswith s ''.zip'' \<Longrightarrow> \<not> endswith s ''.7z''"
  using endswith_last [of s "''.zi''" "CHR ''p''"] endswith_last [of s "''.7''" "CHR ''z''"]
  by auto

lemma endswith_rar_not_7z: "endswith s ''.rar'' \<Longrightarrow> \<not> endswith s ''.7z''"
  using endswith_last [of s "''.ra''" "CHR ''r''"] endswith_last [of s "''.7''" "CHR ''z''"]
  by auto

lemma digit_val_digit_char: "d < 10 \<Longrightarrow> digit_val (digit_char d) = d"
  by (simp add: digit_val_def digit_char_def)

lemma dec_val_snoc: "dec_val (s @ [c]) = 10 * dec_val s + digit_val c"
  by (simp add: dec_val_def)

lemma dec_val_str_nat: "dec_val (str_nat n) = n"
proof (induction n rule: str_nat.induct)
  case (1 n)
  show ?case
  proof (cases "n < 10")
    case True
    then show ?thesis
      by (subst str_nat.simps) (simp add: dec_val_def digit_val_digit_char)
  next
    case False
    with 1 have "dec_val (str_nat (n div 10)) = n div 10" by simp
    with False show ?thesis
      by (subst str_nat.simps) (simp add: dec_val_snoc digit_val_digit_char)
  qed
qed

lemma digit_val_zero: "digit_val CHR ''0'' = 0"
  by (simp add: digit_val_def)

lemma dec_val_zeros: "dec_val (replicate k CHR ''0'' @ s) = dec_val s"
proof -
  have "foldl (\<lambda>a c. 10 * a + digit_val c) 0 (replicate k CHR ''0'') = 0"
    by (induction k) (simp_all add: digit_val_zero)
  then show ?thesis by (simp add: dec_val_def)
qed

lemma dec_val_fmt_03d: "dec_val (fmt_03d i) = i"
  unfolding fmt_03d_def by (simp only: dec_val_zeros dec_val_str_nat)

lemma fmt_03d_inj: "fmt_03d i = fmt_03d j \<Longrightarrow> i = j"
  by (metis dec_val_fmt_03d)

lemma os_path_join_append:
  "b \<noteq> [] \<Longrightarrow> os_path_join a (b @ c) = os_path_join a b @ c"
  by (cases b) (simp_all add: os_path_join_def)

lemma str_nat_digits: "str_nat n \<noteq> [] \<and> set (str_nat n) \<subseteq> digit_char ` {..<10}"
proof (induction n rule: str_nat.induct)
  case (1 n)
  show ?case
  proof (cases "n < 10")
    case True
    then show ?thesis by (subst str_nat.simps, subst str_nat.simps) simp
  next
    case False
    with 1 have "set (str_nat (n div 10)) \<subseteq> digit_char ` {..<10}" by simp
    with False show ?thesis
      by (subst str_nat.simps, subst (2) str_nat.simps) simp
  qed
qed

lemma p_not_digit: "CHR ''p'' \<notin> digit_char ` {..<10}" and zero_digit: "CHR ''0'' \<in> digit_char ` {..<10}"
proof -
  have "digit_val CHR ''p'' = 64" by (simp add: digit_val_def)
  then show "CHR ''p'' \<notin> digit_char ` {..<10}"
    using digit_val_digit_char by fastforce
  have "digit_char 0 = CHR ''0''" by code_simp
  then show "CHR ''0'' \<in> digit_char ` {..<10}" by (metis imageI lessThan_iff zero_less_numeral)
qed

lemma fmt_03d_digits: "fmt_03d i \<noteq> [] \<and> set (fmt_03d i) \<subseteq> digit_char ` {..<10}"
  using str_nat_digits [of i] zero_digit by (auto simp: fmt_03d_def)

lemma fmt_03d_one: "fmt_03d 1 = ''001''" and fmt_03d_two: "fmt_03d 2 = ''002''"
  by code_simp+

section \<open>Exceptions, messages and the environment\<close>

text \<open>
  The \<^verbatim>\<open>except\<close> clauses of the engine name four exception classes:
  \<^verbatim>\<open>zipfile.BadZipFile\<close>, \<^verbatim>\<open>rarfile.Error\<close>, \<^verbatim>\<open>py7zr.exceptions.Bad7zFile\<close> and
  \<^verbatim>\<open>OSError\<close> (\<^verbatim>\<open>IOError\<close> is the same class in Python 3). \<open>OtherException\<close>
  stands for an exception that is an instance of none of the four, such as the
  \<^verbatim>\<open>RuntimeError\<close> that \<^verbatim>\<open>zipfile\<close> raises for an encrypted member, a
  \<^verbatim>\<open>MemoryError\<close>, or whatever the caller's callback raises. An exception carries
  its text \<^verbatim>\<open>str(e)\<close>.
\<close>

datatype exn_class = BadZipFile | RarError | Bad7zFile | OSError | OtherException

datatype exn = Exn (cls: exn_class) (str: string)

text \<open>
  \<^verbatim>\<open>extract_archive\<close> returns a string built from one of six templates; a value of
  \<open>message\<close> is the template with the values interpolated into it (the size is kept as
  a number, not as its rendering with two decimals).
\<close>

datatype message =
    FileNotFound path
  | SuccessfullyExtracted string real
  | FormatNotSupported string real
  | ErrorExtracting string real string
  | PartsNotFound string real
  | ErrorExtractingParts string

text \<open>
  What the engine does to the outside, in order: a member written under the destination
  folder, a call of the progress callback, a line printed by \<^verbatim>\<open>join_zip_parts\<close>.
\<close>

datatype event =
    Extracted string path
  | Progress nat nat real
  | Printed string

text \<open>
  An opened container, as the codec libraries present it: the names that
  \<^verbatim>\<open>namelist()\<close> (or \<^verbatim>\<open>getnames()\<close>) returns, and for each name whether extracting
  it raises (\<open>None\<close>: the member is written and the call returns).
\<close>

record archive =
  namelist :: "string list"
  extract_member :: "string \<Rightarrow> exn option"

datatype io_op = OpenWrite path | ReadFile path | WriteFile path | RemoveFile path

text \<open>
  The libraries and the operating system are parameters of the model: what each codec
  makes of the bytes of a file (an exception or a container), and which file operations
  fail with which exception.
\<close>

record sys =
  zipfile_open :: "bytes \<Rightarrow> exn + archive"
  rarfile_open :: "bytes \<Rightarrow> exn + archive"
  sevenzip_open :: "bytes \<Rightarrow> exn + archive"
  fault :: "io_op \<Rightarrow> exn option"

text \<open>
  The state: the regular files of the file system, an association list from path to
  content, and the events so far.
\<close>

record world =
  files :: "(path \<times> bytes) list"
  events :: "event list"

type_synonym callback = "nat \<Rightarrow> nat \<Rightarrow> real \<Rightarrow> exn option"

text \<open>
  For an operation that returns nothing, \<open>None\<close> means that it returned and
  \<open>Some e\<close> that it raised \<open>e\<close>.
\<close>

definition path_exists :: "world \<Rightarrow> path \<Rightarrow> bool" where
  "path_exists w p = (map_of (files w) p \<noteq> None)"

definition getsize :: "world \<Rightarrow> path \<Rightarrow> exn + nat" where
  "getsize w p =
     (case map_of (files w) p of
        None \<Rightarrow> Inl (Exn OSError ''No such file or directory'')
      | Some content \<Rightarrow> Inr (length content))"

definition open_wb :: "sys \<Rightarrow> world \<Rightarrow> path \<Rightarrow> world \<times> exn option" where
  "open_wb s w p =
     (case fault s (OpenWrite p) of
        Some e \<Rightarrow> (w, Some e)
      | None \<Rightarrow> (w\<lparr>files := AList.update p [] (files w)\<rparr>, None))"

definition read_file :: "sys \<Rightarrow> world \<Rightarrow> path \<Rightarrow> exn + bytes" where
  "read_file s w p =
     (case fault s (ReadFile p) of
        Some e \<Rightarrow> Inl e
      | None \<Rightarrow>
          (case map_of (files w) p of
             None \<Rightarrow> Inl (Exn OSError ''No such file or directory'')
           | Some content \<Rightarrow> Inr content))"

definition file_write :: "sys \<Rightarrow> world \<Rightarrow> path \<Rightarrow> bytes \<Rightarrow> world \<times> exn option" where
  "file_write s w p content =
     (case fault s (WriteFile p) of
        Some e \<Rightarrow> (w, Some e)
      | None \<Rightarrow>
          (let old = (case map_of (files w) p of None \<Rightarrow> [] | Some b \<Rightarrow> b)
           in (w\<lparr>files := AList.update p (old @ content) (files w)\<rparr>, None)))"

definition os_remove :: "sys \<Rightarrow> world \<Rightarrow> path \<Rightarrow> world \<times> exn option" where
  "os_remove s w p =
     (case fault s (RemoveFile p) of
        Some e \<Rightarrow> (w, Some e)
      | None \<Rightarrow>
          if path_exists w p then (w\<lparr>files := AList.delete p (files w)\<rparr>, None)
          else (w, Some (Exn OSError ''No such file or directory'')))"

section \<open>The segment joiner\<close>

definition part_path :: "path \<Rightarrow> string \<Rightarrow> nat \<Rightarrow> path" where
  "part_path folder base_name i = os_path_join folder (base_name @ ''.zip.'' @ fmt_03d i)"

lemma part_path_split:
  "part_path folder base_name i = os_path_join folder (base_name @ ''.zip.'') @ fmt_03d i"
  using os_path_join_append [of "base_name @ ''.zip.''" folder "fmt_03d i"]
  by (simp add: part_path_def)

lemma part_path_inj: "inj (part_path folder base_name)"
  by (rule injI) (simp add: part_path_split fmt_03d_inj)

lemma finite_existing_parts:
  "finite {j. i \<le> j \<and> path_exists w (part_path folder base_name j)}"
proof -
  have "finite (part_path folder base_name -` dom (map_of (files w)))"
    by (rule finite_vimageI) (simp_all add: finite_dom_map_of part_path_inj)
  moreover have "{j. i \<le> j \<and> path_exists w (part_path folder base_name j)}
      \<subseteq> part_path folder base_name -` dom (map_of (files w))"
    by (auto simp: path_exists_def)
  ultimately show ?thesis by (rule rev_finite_subset)
qed

text \<open>
  The \<^verbatim>\<open>while True\<close> loop of \<^verbatim>\<open>join_zip_parts\<close> (lines 51 to 56). It ends because
  the file system holds finitely many files and the segment names of different indices
  differ.
\<close>

function find_parts :: "world \<Rightarrow> path \<Rightarrow> string \<Rightarrow> nat \<Rightarrow> path list \<Rightarrow> path list" where
  "find_parts w folder base_name i parts =
     (if \<not> path_exists w (part_path folder base_name i) then parts
      else find_parts w folder base_name (i + 1) (parts @ [part_path folder base_name i]))"
  by pat_completeness auto
termination
proof (relation "measure (\<lambda>(w, folder, base_name, i, parts).
    card {j. i \<le> j \<and> path_exists w (part_path folder base_name j)})")
  show "wf (measure (\<lambda>(w, folder, base_name, i, parts).
    card {j. i \<le> j \<and> path_exists w (part_path folder base_name j)}))"
    by simp
next
  fix w :: world and folder :: path and base_name :: string and i :: nat and parts :: "path list"
  assume "\<not> \<not> path_exists w (part_path folder base_name i)"
  then have here: "i \<in> {j. i \<le> j \<and> path_exists w (part_path folder base_name j)}"
    by simp
  have "i \<notin> {j. i + 1 \<le> j \<and> path_exists w (part_path folder base_name j)}"
    by simp
  with here have "{j. i + 1 \<le> j \<and> path_exists w (part_path folder base_name j)}
      \<noteq> {j. i \<le> j \<and> path_exists w (part_path folder base_name j)}"
    by metis
  moreover have "{j. i + 1 \<le> j \<and> path_exists w (part_path folder base_name j)}
      \<subseteq> {j. i \<le> j \<and> path_exists w (part_path folder base_name j)}"
    by auto
  ultimately have "{j. i + 1 \<le> j \<and> path_exists w (part_path folder base_name j)}
      \<subset> {j. i \<le> j \<and> path_exists w (part_path folder base_name j)}"
    by (rule psubsetI [rotated])
  then have "card {j. i + 1 \<le> j \<and> path_exists w (part_path folder base_name j)}
      < card {j. i \<le> j \<and> path_exists w (part_path folder base_name j)}"
    by (rule psubset_card_mono [OF finite_existing_parts])
  then show "((w, folder, base_name, i + 1, parts @ [part_path folder base_name i]),
      (w, folder, base_name, i, parts))
    \<in> measure (\<lambda>(w, folder, base_name, i, parts).
        card {j. i \<le> j \<and> path_exists w (part_path folder base_name j)})"
    by simp
qed

declare find_parts.simps [simp del]

text \<open>The \<^verbatim>\<open>for part in parts\<close> loop (lines 65 to 67).\<close>

fun write_parts :: "sys \<Rightarrow> world \<Rightarrow> path \<Rightarrow> path list \<Rightarrow> world \<times> exn option" where
  "write_parts s w out [] = (w, None)"
| "write_parts s w out (part # parts) =
     (case read_file s w part of
        Inl e \<Rightarrow> (w, Some e)
      | Inr content \<Rightarrow>
          (case file_write s w out content of
             (w', Some e) \<Rightarrow> (w', Some e)
           | (w', None) \<Rightarrow> write_parts s w' out parts))"

text \<open>The body of the \<^verbatim>\<open>try\<close> of \<^verbatim>\<open>join_zip_parts\<close> (lines 64 to 67).\<close>

definition write_merged :: "sys \<Rightarrow> world \<Rightarrow> path \<Rightarrow> path list \<Rightarrow> world \<times> exn option" where
  "write_merged s w merged_path parts =
     (case open_wb s w merged_path of
        (w', Some e) \<Rightarrow> (w', Some e)
      | (w', None) \<Rightarrow> write_parts s w' merged_path parts)"

text \<open>
  \<^verbatim>\<open>join_zip_parts\<close>: \<open>Inr None\<close> is the return value \<^verbatim>\<open>None\<close>, \<open>Inl e\<close> an
  exception that leaves the function (\<^verbatim>\<open>except IOError\<close> catches the class
  \<open>OSError\<close> only).
\<close>

definition join_zip_parts :: "sys \<Rightarrow> world \<Rightarrow> path \<Rightarrow> string \<Rightarrow> world \<times> (exn + path option)" where
  "join_zip_parts s w folder base_name =
     (let parts = find_parts w folder base_name 1 []
      in if parts = [] then (w, Inr None)
         else
           (let merged_path = os_path_join folder (base_name @ ''_merged.zip'')
            in case write_merged s w merged_path parts of
                 (w', None) \<Rightarrow> (w', Inr (Some merged_path))
               | (w', Some e) \<Rightarrow>
                   if cls e = OSError
                   then (w'\<lparr>events := events w' @ [Printed (str e)]\<rparr>, Inr None)
                   else (w', Inl e)))"

section \<open>The handlers and the engine\<close>

text \<open>
  The loop over \<^verbatim>\<open>enumerate(file_list, 1)\<close>, the same in the three handlers: extract
  the member, then call the callback when there is one.
\<close>

fun extract_entries ::
  "archive \<Rightarrow> path \<Rightarrow> real \<Rightarrow> callback option \<Rightarrow> nat \<Rightarrow> nat \<Rightarrow> string list \<Rightarrow> world
    \<Rightarrow> world \<times> exn option" where
  "extract_entries a dest gb cb total_files i [] w = (w, None)"
| "extract_entries a dest gb cb total_files i (file_name # rest) w =
     (case extract_member a file_name of
        Some e \<Rightarrow> (w, Some e)
      | None \<Rightarrow>
          (let w1 = w\<lparr>events := events w @ [Extracted file_name dest]\<rparr>
           in case cb of
                None \<Rightarrow> extract_entries a dest gb cb total_files (i + 1) rest w1
              | Some progress_callback \<Rightarrow>
                  (let w2 = w1\<lparr>events := events w1 @ [Progress i total_files gb]\<rparr>
                   in case progress_callback i total_files gb of
                        Some e \<Rightarrow> (w2, Some e)
                      | None \<Rightarrow> extract_entries a dest gb cb total_files (i + 1) rest w2)))"

text \<open>
  \<^verbatim>\<open>_extract_zip\<close>, \<^verbatim>\<open>_extract_rar\<close> and \<^verbatim>\<open>_extract_7z\<close> differ in the codec only:
  open the container, list it once, run the loop, return the success message.
\<close>

definition extract_container ::
  "(bytes \<Rightarrow> exn + archive) \<Rightarrow> sys \<Rightarrow> world \<Rightarrow> path \<Rightarrow> path \<Rightarrow> real \<Rightarrow> callback option
    \<Rightarrow> world \<times> (exn + message)" where
  "extract_container codec s w archive_path dest gb cb =
     (case read_file s w archive_path of
        Inl e \<Rightarrow> (w, Inl e)
      | Inr content \<Rightarrow>
          (case codec content of
             Inl e \<Rightarrow> (w, Inl e)
           | Inr a \<Rightarrow>
               (let file_list = namelist a; total_files = length file_list
                in case extract_entries a dest gb cb total_files 1 file_list w of
                     (w', Some e) \<Rightarrow> (w', Inl e)
                   | (w', None) \<Rightarrow>
                       (w', Inr (SuccessfullyExtracted (basename archive_path) gb)))))"

definition extract_zip ::
  "sys \<Rightarrow> world \<Rightarrow> path \<Rightarrow> path \<Rightarrow> real \<Rightarrow> callback option \<Rightarrow> world \<times> (exn + message)" where
  "extract_zip s = extract_container (zipfile_open s) s"

definition extract_rar ::
  "sys \<Rightarrow> world \<Rightarrow> path \<Rightarrow> path \<Rightarrow> real \<Rightarrow> callback option \<Rightarrow> world \<times> (exn + message)" where
  "extract_rar s = extract_container (rarfile_open s) s"

definition extract_7z ::
  "sys \<Rightarrow> world \<Rightarrow> path \<Rightarrow> path \<Rightarrow> real \<Rightarrow> callback option \<Rightarrow> world \<times> (exn + message)" where
  "extract_7z s = extract_container (sevenzip_open s) s"

text \<open>The body of the \<^verbatim>\<open>try\<close> of \<^verbatim>\<open>_extract_split_zip\<close> (lines 177 to 182).\<close>

definition extract_merged ::
  "sys \<Rightarrow> world \<Rightarrow> path \<Rightarrow> path \<Rightarrow> real \<Rightarrow> callback option \<Rightarrow> world \<times> (exn + message)" where
  "extract_merged s w merged_path dest gb cb =
     (case extract_zip s w merged_path dest gb cb of
        (w', Inl e) \<Rightarrow> (w', Inl e)
      | (w', Inr result) \<Rightarrow>
          if path_exists w' merged_path
          then (case os_remove s w' merged_path of
                  (w'', Some e) \<Rightarrow> (w'', Inl e)
                | (w'', None) \<Rightarrow> (w'', Inr result))
          else (w', Inr result))"

text \<open>
  \<^verbatim>\<open>_extract_split_zip\<close>. The test \<^verbatim>\<open>if not merged_path\<close> holds for \<^verbatim>\<open>None\<close> and
  for the empty string.
\<close>

definition extract_split_zip ::
  "sys \<Rightarrow> world \<Rightarrow> path \<Rightarrow> path \<Rightarrow> real \<Rightarrow> callback option \<Rightarrow> world \<times> (exn + message)" where
  "extract_split_zip s w archive_path dest gb cb =
     (let folder = dirname archive_path;
          base_name = split_first ''.zip.'' (basename archive_path)
      in case join_zip_parts s w folder base_name of
           (w1, Inl e) \<Rightarrow> (w1, Inl e)
         | (w1, Inr None) \<Rightarrow> (w1, Inr (PartsNotFound (basename archive_path) gb))
         | (w1, Inr (Some merged_path)) \<Rightarrow>
             if merged_path = [] then (w1, Inr (PartsNotFound (basename archive_path) gb))
             else
               (case extract_merged s w1 merged_path dest gb cb of
                  (w2, Inl e) \<Rightarrow>
                    if cls e = BadZipFile \<or> cls e = OSError
                    then (w2, Inr (ErrorExtractingParts (str e)))
                    else (w2, Inl e)
                | (w2, Inr result) \<Rightarrow> (w2, Inr result)))"

text \<open>
  The body of the \<^verbatim>\<open>try\<close> of \<^verbatim>\<open>extract_archive\<close> (lines 94 to 114): the handler is
  chosen from the lower-cased path.
\<close>

definition dispatch ::
  "sys \<Rightarrow> world \<Rightarrow> path \<Rightarrow> path \<Rightarrow> real \<Rightarrow> callback option \<Rightarrow> world \<times> (exn + message)" where
  "dispatch s w archive_path dest gb cb =
     (let archive_path_lower = lower archive_path
      in if endswith archive_path_lower ''.zip'' then extract_zip s w archive_path dest gb cb
         else if endswith archive_path_lower ''.rar'' then extract_rar s w archive_path dest gb cb
         else if endswith archive_path_lower ''.7z'' then extract_7z s w archive_path dest gb cb
         else if contains archive_path_lower ''.zip.''
           then extract_split_zip s w archive_path dest gb cb
         else (w, Inr (FormatNotSupported (basename archive_path) gb)))"

text \<open>
  The size \<^verbatim>\<open>file_size_bytes / (1024 ** 3)\<close>. The quotient is taken as a real number
  (the division by a power of two is exact in floating point below \<open>2 ^ 53\<close> bytes).
\<close>

definition size_gb :: "nat \<Rightarrow> real" where
  "size_gb file_size_bytes = real file_size_bytes / 1024 ^ 3"

text \<open>
  \<^verbatim>\<open>extract_archive\<close>. \<open>Inr m\<close> is the returned message, \<open>Inl e\<close> an exception that
  reaches the caller. The size is computed before the \<^verbatim>\<open>try\<close>, after the test that
  the path exists.
\<close>

definition extract_archive ::
  "sys \<Rightarrow> world \<Rightarrow> path \<Rightarrow> path \<Rightarrow> callback option \<Rightarrow> world \<times> (exn + message)" where
  "extract_archive s w archive_path dest cb =
     (if \<not> path_exists w archive_path then (w, Inr (FileNotFound archive_path))
      else
        (case getsize w archive_path of
           Inl e \<Rightarrow> (w, Inl e)
         | Inr file_size_bytes \<Rightarrow>
             (let file_size_gb = size_gb file_size_bytes;
                  file_name = basename archive_path
              in case dispatch s w archive_path dest file_size_gb cb of
                   (w', Inl e) \<Rightarrow>
                     if cls e = BadZipFile \<or> cls e = RarError \<or> cls e = Bad7zFile
                        \<or> cls e = OSError
                     then (w', Inr (ErrorExtracting file_name file_size_gb (str e)))
                     else (w', Inl e)
                 | (w', Inr m) \<Rightarrow> (w', Inr m))))"

text \<open>
  The format of a path: the tag of the branch that the chain of \<open>dispatch\<close> takes
  (\<open>dispatch_by_format\<close> below).
\<close>

datatype archive_format = Zip | Rar | SevenZip | SplitZip | Unsupported

definition classify :: "path \<Rightarrow> archive_format" where
  "classify archive_path =
     (let archive_path_lower = lower archive_path
      in if endswith archive_path_lower ''.zip'' then Zip
         else if endswith archive_path_lower ''.rar'' then Rar
         else if endswith archive_path_lower ''.7z'' then SevenZip
         else if contains archive_path_lower ''.zip.'' then SplitZip
         else Unsupported)"

section \<open>The older module\<close>

text \<open>
  \<^verbatim>\<open>src/unzipfull.py\<close> is an earlier version of the same engine, with functions at
  module level. Its \<^verbatim>\<open>juntar_partes_zip\<close> has the loops of \<^verbatim>\<open>join_zip_parts\<close>, names
  the merged file \<^verbatim>\<open>{base_name}_unido.zip\<close> and catches nothing. Its
  \<^verbatim>\<open>extract_archive\<close> reads the size without testing that the path exists, runs the
  same loop over the members inline in each branch, removes the merged file after a
  successful extraction, and catches the three codec classes only. The claims below
  are stated for the engine of \<^verbatim>\<open>src/archive_extractor.py\<close>; this section records where
  the older module differs.
\<close>

definition juntar_partes_zip :: "sys \<Rightarrow> world \<Rightarrow> path \<Rightarrow> string \<Rightarrow> world \<times> (exn + path option)" where
  "juntar_partes_zip s w folder base_name =
     (let partes = find_parts w folder base_name 1 []
      in if partes = [] then (w, Inr None)
         else
           (let unido_path = os_path_join folder (base_name @ ''_unido.zip'')
            in case write_merged s w unido_path partes of
                 (w', None) \<Rightarrow> (w', Inr (Some unido_path))
               | (w', Some e) \<Rightarrow> (w', Inl e)))"

definition unzipfull_members ::
  "(bytes \<Rightarrow> exn + archive) \<Rightarrow> sys \<Rightarrow> world \<Rightarrow> path \<Rightarrow> path \<Rightarrow> real \<Rightarrow> callback option
    \<Rightarrow> world \<times> exn option" where
  "unzipfull_members codec s w archive_path dest gb cb =
     (case read_file s w archive_path of
        Inl e \<Rightarrow> (w, Some e)
      | Inr content \<Rightarrow>
          (case codec content of
             Inl e \<Rightarrow> (w, Some e)
           | Inr a \<Rightarrow>
               (let namelist = namelist a; total_interno = length namelist
                in extract_entries a dest gb cb total_interno 1 namelist w)))"

definition unzipfull_body ::
  "sys \<Rightarrow> world \<Rightarrow> path \<Rightarrow> path \<Rightarrow> real \<Rightarrow> callback option \<Rightarrow> world \<times> (exn + message)" where
  "unzipfull_body s w archive_path dest gb cb =
     (let lower = lower archive_path;
          done = (\<lambda>r. case r of
                    (w', Some e) \<Rightarrow> (w', Inl e)
                  | (w', None) \<Rightarrow> (w', Inr (SuccessfullyExtracted (basename archive_path) gb)))
      in if endswith lower ''.zip''
           then done (unzipfull_members (zipfile_open s) s w archive_path dest gb cb)
         else if endswith lower ''.rar''
           then done (unzipfull_members (rarfile_open s) s w archive_path dest gb cb)
         else if endswith lower ''.7z''
           then done (unzipfull_members (sevenzip_open s) s w archive_path dest gb cb)
         else if contains lower ''.zip.'' then
           (let folder = dirname archive_path;
                base = split_first ''.zip.'' (basename archive_path)
            in case juntar_partes_zip s w folder base of
                 (w1, Inl e) \<Rightarrow> (w1, Inl e)
               | (w1, Inr None) \<Rightarrow> (w1, Inr (PartsNotFound archive_path gb))
               | (w1, Inr (Some unido)) \<Rightarrow>
                   if unido = [] then (w1, Inr (PartsNotFound archive_path gb))
                   else
                     (case unzipfull_members (zipfile_open s) s w1 unido dest gb cb of
                        (w2, Some e) \<Rightarrow> (w2, Inl e)
                      | (w2, None) \<Rightarrow> done (os_remove s w2 unido)))
         else (w, Inr (FormatNotSupported (basename archive_path) gb)))"

definition unzipfull_extract_archive ::
  "sys \<Rightarrow> world \<Rightarrow> path \<Rightarrow> path \<Rightarrow> callback option \<Rightarrow> world \<times> (exn + message)" where
  "unzipfull_extract_archive s w archive_path dest cb =
     (case getsize w archive_path of
        Inl e \<Rightarrow> (w, Inl e)
      | Inr tamanho_bytes \<Rightarrow>
          (let tamanho_gb = size_gb tamanho_bytes
           in case unzipfull_body s w archive_path dest tamanho_gb cb of
                (w', Inl e) \<Rightarrow>
                  if cls e = BadZipFile \<or> cls e = RarError \<or> cls e = Bad7zFile
                  then (w', Inr (ErrorExtracting (basename archive_path) tamanho_gb (str e)))
                  else (w', Inl e)
              | (w', Inr m) \<Rightarrow> (w', Inr m)))"

section \<open>A small environment for concrete runs\<close>

text \<open>
  A codec that accepts any content starting with the bytes 80, 75 as a ZIP container of
  two members, a file system with a plain archive, a split archive of two segments,
  files that are no archives, a second segment without its first, and segments named
  in upper case; no file operation fails.
\<close>

definition two_entries :: archive where
  "two_entries = \<lparr>namelist = [''a.txt'', ''b.txt''], extract_member = (\<lambda>name. None)\<rparr>"

definition example_sys :: sys where
  "example_sys =
     \<lparr>zipfile_open = (\<lambda>content. if take 2 content = [80, 75] then Inr two_entries
                        else Inl (Exn BadZipFile ''File is not a zip file'')),
      rarfile_open = (\<lambda>content. Inl (Exn RarError ''Not a RAR file'')),
      sevenzip_open = (\<lambda>content. Inl (Exn Bad7zFile ''not a 7z file'')),
      fault = (\<lambda>op. None)\<rparr>"

definition example_world :: world where
  "example_world =
     \<lparr>files = [(''/d/a.zip'', [80, 75, 3, 4]),
               (''/d/b.zip.001'', [80, 75]), (''/d/b.zip.002'', [5, 6, 7]),
               (''/d/c.zip'', [0, 0]),
               (''/d/e.zip.001'', [1]),
               (''/d/f.zip.002'', [9]),
               (''/d/A.ZIP.001'', [80, 75]), (''/d/A.ZIP.002'', [5, 6, 7])],
      events = []\<rparr>"

definition silent :: callback where
  "silent i total_files gb = None"

text \<open>The same system when the disk is full as the merged file is written.\<close>

definition disk_full_sys :: sys where
  "disk_full_sys =
     example_sys\<lparr>fault := (\<lambda>op. if op = WriteFile ''/d/b_merged.zip''
                                then Some (Exn OSError ''No space left on device'')
                                else None)\<rparr>"

text \<open>
  A ZIP codec whose container holds an encrypted member: \<^verbatim>\<open>ZipFile.extract\<close> raises
  \<^verbatim>\<open>RuntimeError\<close> for it when no password was given.
\<close>

definition encrypted_sys :: sys where
  "encrypted_sys =
     example_sys\<lparr>zipfile_open := (\<lambda>content.
        Inr \<lparr>namelist = [''secret.txt''],
             extract_member = (\<lambda>name. Some (Exn OtherException
               ''File secret.txt is encrypted, password required for extraction''))\<rparr>)\<rparr>"

text \<open>
  A folder that holds an upper-case segment and, beside it, a file with the name that
  the joiner derives from it.
\<close>

definition probe_world :: world where
  "probe_world =
     \<lparr>files = [(''/d/A.ZIP.001'', [80, 75]), (''/d/A.ZIP.001.zip.001'', [80, 75, 3])],
      events = []\<rparr>"

section \<open>The events of a run\<close>


lemma extract_entries_progress:
  "extract_entries a dest gb cb total_files i names w = (w', r) \<Longrightarrow>
   files w' = files w \<and>
   (\<exists>evs. events w' = events w @ evs \<and>
      (\<forall>ev\<in>set evs. (\<exists>name. ev = Extracted name dest) \<or> (\<exists>j. ev = Progress j total_files gb)))"
proof (induction names arbitrary: i w)
  case Nil
  then show ?case by simp
next
  case (Cons name names)
  show ?case
  proof (cases "extract_member a name")
    case (Some e)
    with Cons.prems show ?thesis by simp
  next
    case None
    let ?w1 = "w\<lparr>events := events w @ [Extracted name dest]\<rparr>"
    let ?w2 = "w\<lparr>events := events w @ [Extracted name dest, Progress i total_files gb]\<rparr>"
    show ?thesis
    proof (cases cb)
      case no_cb: None
      with None Cons.prems have "extract_entries a dest gb cb total_files (i + 1) names ?w1 = (w', r)"
        by (simp add: Let_def)
      from Cons.IH [OF this] obtain evs where
        "files w' = files w" "events w' = events w @ Extracted name dest # evs"
        "\<forall>ev\<in>set evs. (\<exists>name. ev = Extracted name dest) \<or> (\<exists>j. ev = Progress j total_files gb)"
        by auto
      then show ?thesis by (intro conjI exI [of _ "Extracted name dest # evs"]) auto
    next
      case (Some f)
      show ?thesis
      proof (cases "f i total_files gb")
        case raised: (Some e)
        with None Some Cons.prems have "w' = ?w2" by (simp add: Let_def)
        then show ?thesis
          by (intro conjI exI [of _ "[Extracted name dest, Progress i total_files gb]"]) auto
      next
        case ok: None
        with None Some Cons.prems
        have "extract_entries a dest gb cb total_files (i + 1) names ?w2 = (w', r)"
          by (simp add: Let_def)
        from Cons.IH [OF this] obtain evs where
          "files w' = files w"
          "events w' = events w @ Extracted name dest # Progress i total_files gb # evs"
          "\<forall>ev\<in>set evs. (\<exists>name. ev = Extracted name dest) \<or> (\<exists>j. ev = Progress j total_files gb)"
          by auto
        then show ?thesis
          by (intro conjI exI [of _ "Extracted name dest # Progress i total_files gb # evs"]) auto
      qed
    qed
  qed
qed

lemma extract_container_progress:
  assumes "extract_container codec s w p dest gb cb = (w', r)"
  shows "files w' = files w \<and>
    (\<exists>evs. events w' = events w @ evs \<and> (\<forall>j t g. Progress j t g \<in> set evs \<longrightarrow> g = gb))"
proof (cases "read_file s w p")
  case (Inl e)
  with assms show ?thesis by (simp add: extract_container_def)
next
  case (Inr content)
  show ?thesis
  proof (cases "codec content")
    case (Inl e)
    with Inr assms show ?thesis by (simp add: extract_container_def)
  next
    case opened: (Inr a)
    obtain w1 r1 where loop:
      "extract_entries a dest gb cb (length (namelist a)) 1 (namelist a) w = (w1, r1)"
      by (cases "extract_entries a dest gb cb (length (namelist a)) 1 (namelist a) w")
    with Inr opened assms have "w' = w1"
      by (auto simp: extract_container_def Let_def split: option.splits)
    with extract_entries_progress [OF loop] show ?thesis by auto
  qed
qed

lemma open_wb_events: "open_wb s w p = (w', r) \<Longrightarrow> events w' = events w"
  by (auto simp: open_wb_def split: option.splits)

lemma file_write_events: "file_write s w p content = (w', r) \<Longrightarrow> events w' = events w"
  by (auto simp: file_write_def Let_def split: option.splits)

lemma os_remove_events: "os_remove s w p = (w', r) \<Longrightarrow> events w' = events w"
  by (auto simp: os_remove_def split: option.splits if_splits)

lemma write_parts_events: "write_parts s w out parts = (w', r) \<Longrightarrow> events w' = events w"
proof (induction parts arbitrary: w)
  case Nil
  then show ?case by simp
next
  case (Cons part parts)
  show ?case
  proof (cases "read_file s w part")
    case (Inl e)
    with Cons.prems show ?thesis by simp
  next
    case (Inr content)
    obtain w1 r1 where wr: "file_write s w out content = (w1, r1)"
      by (cases "file_write s w out content")
    show ?thesis
    proof (cases r1)
      case None
      with Inr wr Cons.prems have "write_parts s w1 out parts = (w', r)" by simp
      from Cons.IH [OF this] file_write_events [OF wr] show ?thesis by simp
    next
      case (Some e)
      with Inr wr Cons.prems have "w' = w1" by simp
      with file_write_events [OF wr] show ?thesis by simp
    qed
  qed
qed

lemma write_merged_events: "write_merged s w out parts = (w', r) \<Longrightarrow> events w' = events w"
proof -
  assume run: "write_merged s w out parts = (w', r)"
  obtain w1 r1 where op: "open_wb s w out = (w1, r1)"
    by (cases "open_wb s w out")
  show ?thesis
  proof (cases r1)
    case None
    with op run have "write_parts s w1 out parts = (w', r)" by (simp add: write_merged_def)
    from write_parts_events [OF this] open_wb_events [OF op] show ?thesis by simp
  next
    case (Some e)
    with op run have "w' = w1" by (simp add: write_merged_def)
    with open_wb_events [OF op] show ?thesis by simp
  qed
qed

lemma join_zip_parts_events:
  assumes "join_zip_parts s w folder base_name = (w', r)"
  shows "\<exists>evs. events w' = events w @ evs \<and> (\<forall>ev\<in>set evs. \<exists>text. ev = Printed text)"
proof (cases "find_parts w folder base_name 1 [] = []")
  case True
  with assms show ?thesis by (simp add: join_zip_parts_def)
next
  case False
  obtain w1 r1 where wm: "write_merged s w (os_path_join folder (base_name @ ''_merged.zip''))
      (find_parts w folder base_name 1 []) = (w1, r1)"
    by (cases "write_merged s w (os_path_join folder (base_name @ ''_merged.zip''))
      (find_parts w folder base_name 1 [])")
  note ev = write_merged_events [OF wm]
  show ?thesis
  proof (cases r1)
    case None
    with False wm assms have "w' = w1" by (simp add: join_zip_parts_def Let_def)
    with ev show ?thesis by simp
  next
    case (Some e)
    show ?thesis
    proof (cases "cls e = OSError")
      case True
      with Some False wm assms have "w' = w1\<lparr>events := events w1 @ [Printed (str e)]\<rparr>"
        by (simp add: join_zip_parts_def Let_def)
      with ev show ?thesis by simp
    next
      case other: False
      with Some False wm assms have "w' = w1" by (simp add: join_zip_parts_def Let_def)
      with ev show ?thesis by simp
    qed
  qed
qed

lemma extract_merged_progress:
  assumes "extract_merged s w merged_path dest gb cb = (w', r)"
  shows "\<exists>evs. events w' = events w @ evs \<and> (\<forall>j t g. Progress j t g \<in> set evs \<longrightarrow> g = gb)"
proof -
  obtain w1 r1 where ez: "extract_container (zipfile_open s) s w merged_path dest gb cb = (w1, r1)"
    by (cases "extract_container (zipfile_open s) s w merged_path dest gb cb")
  have "events w' = events w1"
  proof (cases r1)
    case (Inl e)
    with ez assms show ?thesis by (simp add: extract_merged_def extract_zip_def)
  next
    case (Inr result)
    show ?thesis
    proof (cases "path_exists w1 merged_path")
      case True
      obtain w2 r2 where rm: "os_remove s w1 merged_path = (w2, r2)"
        by (cases "os_remove s w1 merged_path")
      with True Inr ez assms have "w' = w2"
        by (auto simp: extract_merged_def extract_zip_def split: option.splits)
      with os_remove_events [OF rm] show ?thesis by simp
    next
      case False
      with Inr ez assms show ?thesis by (simp add: extract_merged_def extract_zip_def)
    qed
  qed
  with extract_container_progress [OF ez] show ?thesis by simp
qed

lemma events_append_progress:
  assumes "events w1 = events w @ evs1" and "\<forall>j t g. Progress j t g \<in> set evs1 \<longrightarrow> g = gb"
    and "events w2 = events w1 @ evs2" and "\<forall>j t g. Progress j t g \<in> set evs2 \<longrightarrow> g = gb"
  shows "\<exists>evs. events w2 = events w @ evs \<and> (\<forall>j t g. Progress j t g \<in> set evs \<longrightarrow> g = gb)"
  using assms by (intro exI [of _ "evs1 @ evs2"]) auto

lemma extract_split_zip_progress:
  assumes "extract_split_zip s w p dest gb cb = (w', r)"
  shows "\<exists>evs. events w' = events w @ evs \<and> (\<forall>j t g. Progress j t g \<in> set evs \<longrightarrow> g = gb)"
proof -
  let ?folder = "dirname p" and ?base = "split_first ''.zip.'' (basename p)"
  obtain w1 r1 where jn: "join_zip_parts s w ?folder ?base = (w1, r1)"
    by (cases "join_zip_parts s w ?folder ?base")
  from join_zip_parts_events [OF jn] obtain evs1 where
    e1: "events w1 = events w @ evs1" and p1: "\<forall>j t g. Progress j t g \<in> set evs1 \<longrightarrow> g = gb"
    by fastforce
  show ?thesis
  proof (cases "\<exists>m. r1 = Inr (Some m) \<and> m \<noteq> []")
    case False
    with jn assms have "w' = w1"
      by (auto simp: extract_split_zip_def Let_def split: sum.splits option.splits)
    with e1 p1 show ?thesis by auto
  next
    case True
    then obtain m where m: "r1 = Inr (Some m)" "m \<noteq> []" by auto
    obtain w2 r2 where em: "extract_merged s w1 m dest gb cb = (w2, r2)"
      by (cases "extract_merged s w1 m dest gb cb")
    with m jn assms have "w' = w2"
      by (auto simp: extract_split_zip_def Let_def split: sum.splits if_splits)
    moreover from extract_merged_progress [OF em] obtain evs2 where
      e2: "events w2 = events w1 @ evs2"
      and p2: "\<forall>j t g. Progress j t g \<in> set evs2 \<longrightarrow> g = gb"
      by auto
    ultimately show ?thesis using events_append_progress [OF e1 p1 e2 p2] by simp
  qed
qed

lemma dispatch_progress:
  assumes "dispatch s w p dest gb cb = (w', r)"
  shows "\<exists>evs. events w' = events w @ evs \<and> (\<forall>j t g. Progress j t g \<in> set evs \<longrightarrow> g = gb)"
  using assms extract_container_progress [of _ s w p dest gb cb w' r]
    extract_split_zip_progress [of s w p dest gb cb w' r]
  by (auto simp: dispatch_def Let_def extract_zip_def extract_rar_def extract_7z_def
      split: if_splits)

section \<open>Facts about the joiner\<close>

lemma split_first_absent: "\<not> contains s sep \<Longrightarrow> split_first sep s = s"
proof (induction s)
  case Nil
  then show ?case by simp
next
  case (Cons c cs)
  from Cons.prems have "\<not> prefix sep (c # cs)" and "\<not> contains cs sep"
    by (auto simp: contains_def sublist_Cons_right)
  with Cons.IH show ?case by simp
qed

lemma os_path_join_last: "b \<noteq> [] \<Longrightarrow> os_path_join a b \<noteq> [] \<and> last (os_path_join a b) = last b"
  by (simp add: os_path_join_def)

lemma merged_path_last:
  "os_path_join folder (base_name @ ''_merged.zip'') \<noteq> []
   \<and> last (os_path_join folder (base_name @ ''_merged.zip'')) = CHR ''p''"
  using os_path_join_last [of "base_name @ ''_merged.zip''" folder] by simp

lemma part_path_last: "last (part_path folder base_name i) \<in> digit_char ` {..<10}"
proof -
  have "last (part_path folder base_name i) = last (fmt_03d i)"
    using fmt_03d_digits [of i] os_path_join_last [of "base_name @ ''.zip.'' @ fmt_03d i" folder]
    by (simp add: part_path_def)
  moreover have "last (fmt_03d i) \<in> set (fmt_03d i)"
    using fmt_03d_digits [of i] by simp
  ultimately show ?thesis using fmt_03d_digits [of i] by auto
qed

lemma merged_path_not_part:
  "os_path_join folder (base_name @ ''_merged.zip'') \<noteq> part_path folder base_name i"
  using merged_path_last [of folder base_name] part_path_last [of folder base_name i] p_not_digit
  by metis

lemma find_parts_run:
  "\<exists>n. i \<le> n \<and> find_parts w folder base_name i acc = acc @ map (part_path folder base_name) [i..<n]
     \<and> (\<forall>j. i \<le> j \<and> j < n \<longrightarrow> path_exists w (part_path folder base_name j))
     \<and> \<not> path_exists w (part_path folder base_name n)"
proof (induction w folder base_name i acc rule: find_parts.induct)
  case (1 w folder base_name i parts)
  show ?case
  proof (cases "path_exists w (part_path folder base_name i)")
    case False
    then have "find_parts w folder base_name i parts = parts"
      by (subst find_parts.simps) simp
    with False show ?thesis by (intro exI [of _ i]) auto
  next
    case True
    with 1 obtain n where n: "i + 1 \<le> n"
      "find_parts w folder base_name (i + 1) (parts @ [part_path folder base_name i])
        = (parts @ [part_path folder base_name i]) @ map (part_path folder base_name) [i + 1..<n]"
      "\<forall>j. i + 1 \<le> j \<and> j < n \<longrightarrow> path_exists w (part_path folder base_name j)"
      "\<not> path_exists w (part_path folder base_name n)"
      by blast
    from True have "find_parts w folder base_name i parts
        = find_parts w folder base_name (i + 1) (parts @ [part_path folder base_name i])"
      by (subst find_parts.simps) simp
    moreover from n(1) have "[i..<n] = i # [i + 1..<n]"
      by (simp add: upt_rec)
    moreover have "\<forall>j. i \<le> j \<and> j < n \<longrightarrow> path_exists w (part_path folder base_name j)"
    proof (intro allI impI)
      fix j assume "i \<le> j \<and> j < n"
      then have "j = i \<or> (i + 1 \<le> j \<and> j < n)" by auto
      with True n(3) show "path_exists w (part_path folder base_name j)" by auto
    qed
    ultimately show ?thesis using n by (intro exI [of _ n]) simp
  qed
qed

lemma find_parts_none:
  "\<not> path_exists w (part_path folder base_name 1) \<Longrightarrow> find_parts w folder base_name 1 [] = []"
  by (subst find_parts.simps) simp

lemma file_write_ok:
  assumes "fault s (WriteFile out) = None" and "map_of (files w) out = Some old"
  shows "file_write s w out content = (w\<lparr>files := AList.update out (old @ content) (files w)\<rparr>, None)"
  using assms by (simp add: file_write_def)

lemma write_parts_ok:
  assumes "fault s (WriteFile out) = None"
    and "\<forall>p\<in>set parts. fault s (ReadFile p) = None"
    and "out \<notin> set parts"
    and "map_of (files w) out = Some old"
    and "list_all2 (\<lambda>p content. map_of (files w) p = Some content) parts contents"
  shows "write_parts s w out parts
    = (w\<lparr>files := AList.update out (old @ concat contents) (files w)\<rparr>, None)"
  using assms(2-)
proof (induction parts arbitrary: w old contents)
  case Nil
  then have "AList.update out old (files w) = files w"
    by (simp add: AList.update_triv)
  with Nil show ?case by simp
next
  case (Cons part parts)
  from Cons.prems(4) obtain content rest where
    contents: "contents = content # rest" and here: "map_of (files w) part = Some content"
    and others: "list_all2 (\<lambda>p content. map_of (files w) p = Some content) parts rest"
    by (auto simp: list_all2_Cons1)
  let ?w1 = "w\<lparr>files := AList.update out (old @ content) (files w)\<rparr>"
  from Cons.prems(1) here have rd: "read_file s w part = Inr content"
    by (simp add: read_file_def)
  have wr: "file_write s w out content = (?w1, None)"
    using file_write_ok [OF assms(1) Cons.prems(3)] .
  have same: "map_of (files ?w1) p = map_of (files w) p" if "p \<noteq> out" for p
    using that by (simp add: update_conv')
  from Cons.prems(2) have "\<forall>p\<in>set parts. p \<noteq> out" by auto
  then have away: "\<forall>p\<in>set parts. p \<noteq> out" .
  from others have len: "length parts = length rest"
    and nth: "\<forall>i<length parts. map_of (files w) (parts ! i) = Some (rest ! i)"
    by (auto simp: list_all2_conv_all_nth)
  have "\<forall>i<length parts. map_of (files ?w1) (parts ! i) = Some (rest ! i)"
  proof (intro allI impI)
    fix i assume i: "i < length parts"
    with away have "parts ! i \<noteq> out" by (metis nth_mem)
    from same [OF this] nth i show "map_of (files ?w1) (parts ! i) = Some (rest ! i)"
      by simp
  qed
  with len have others1:
    "list_all2 (\<lambda>p content. map_of (files ?w1) p = Some content) parts rest"
    by (simp add: list_all2_conv_all_nth)
  have out1: "map_of (files ?w1) out = Some (old @ content)"
    by (simp add: update_conv')
  from Cons.prems(1,2) have "\<forall>p\<in>set parts. fault s (ReadFile p) = None" "out \<notin> set parts"
    by auto
  from Cons.IH [OF this out1 others1] rd wr contents show ?case by simp
qed

section \<open>Facts about the engine\<close>

lemma dispatch_split_zip:
  "classify p = SplitZip \<Longrightarrow> dispatch s w p dest gb cb = extract_split_zip s w p dest gb cb"
  by (auto simp: classify_def dispatch_def Let_def split: if_splits)

lemma join_zip_parts_none:
  "\<not> path_exists w (part_path folder base_name 1) \<Longrightarrow>
   join_zip_parts s w folder base_name = (w, Inr None)"
proof -
  assume "\<not> path_exists w (part_path folder base_name 1)"
  then have "find_parts w folder base_name 1 [] = []"
    by (rule find_parts_none)
  then show ?thesis
    unfolding join_zip_parts_def Let_def by (simp only: if_True simp_thms)
qed

lemma extract_archive_existing:
  "map_of (files w) p = Some content \<Longrightarrow>
   extract_archive s w p dest cb =
     (case dispatch s w p dest (size_gb (length content)) cb of
        (w', Inl e) \<Rightarrow>
          if cls e = BadZipFile \<or> cls e = RarError \<or> cls e = Bad7zFile \<or> cls e = OSError
          then (w', Inr (ErrorExtracting (basename p) (size_gb (length content)) (str e)))
          else (w', Inl e)
      | (w', Inr m) \<Rightarrow> (w', Inr m))"
  by (simp add: extract_archive_def path_exists_def getsize_def Let_def)

lemma split_without_merged_file:
  assumes "map_of (files w) p = Some content" and "classify p = SplitZip"
    and "join_zip_parts s w (dirname p) (split_first ''.zip.'' (basename p)) = (w', Inr None)"
  shows "extract_archive s w p dest cb
    = (w', Inr (PartsNotFound (basename p) (size_gb (length content))))"
proof -
  have "extract_split_zip s w p dest (size_gb (length content)) cb
      = (w', Inr (PartsNotFound (basename p) (size_gb (length content))))"
    unfolding extract_split_zip_def Let_def
    by (simp only: assms(3) prod.case sum.case option.case)
  with assms(1,2) show ?thesis
    by (simp add: extract_archive_existing dispatch_split_zip)
qed

lemma split_without_first_segment:
  assumes "map_of (files w) p = Some content" and "classify p = SplitZip"
    and "\<not> path_exists w (part_path (dirname p) (split_first ''.zip.'' (basename p)) 1)"
  shows "extract_archive s w p dest cb
    = (w, Inr (PartsNotFound (basename p) (size_gb (length content))))"
  using assms(1,2) join_zip_parts_none [OF assms(3)] by (rule split_without_merged_file)

lemma part_path_one:
  "part_path folder base_name 1 = os_path_join folder (base_name @ ''.zip.001'')"
  unfolding part_path_def fmt_03d_one by simp

lemma find_parts_some:
  assumes "path_exists w (part_path folder base_name 1)"
  shows "find_parts w folder base_name 1 [] \<noteq> []"
proof -
  define acc where "acc = [] @ [part_path folder base_name 1]"
  from find_parts_run [of "1 + 1" w folder base_name acc] obtain n where
    "find_parts w folder base_name (1 + 1) acc = acc @ map (part_path folder base_name) [1 + 1..<n]"
    by blast
  then have "find_parts w folder base_name (1 + 1) acc \<noteq> []"
    by (simp add: acc_def)
  moreover from assms have "find_parts w folder base_name 1 []
      = find_parts w folder base_name (1 + 1) acc"
    unfolding acc_def by (subst find_parts.simps) (simp only: if_False simp_thms)
  ultimately show ?thesis by metis
qed

lemma join_zip_parts_io_error:
  assumes "path_exists w (part_path folder base_name 1)"
    and "write_merged s w (os_path_join folder (base_name @ ''_merged.zip''))
           (find_parts w folder base_name 1 []) = (w1, Some e)"
    and "cls e = OSError"
  shows "join_zip_parts s w folder base_name
      = (w1\<lparr>events := events w1 @ [Printed (str e)]\<rparr>, Inr None)"
  unfolding join_zip_parts_def Let_def
  by (simp only: find_parts_some [OF assms(1)] assms(2,3) if_False if_True prod.case
      option.case simp_thms)

lemma other_class: "cls e \<noteq> BadZipFile \<Longrightarrow> cls e \<noteq> RarError \<Longrightarrow> cls e \<noteq> Bad7zFile \<Longrightarrow>
  cls e \<noteq> OSError \<Longrightarrow> cls e = OtherException"
  by (cases "cls e") simp_all

lemma merged_file_removed_after_success:
  assumes "extract_merged s w merged_path dest gb cb = (w', Inr result)"
  shows "\<not> path_exists w' merged_path"
proof -
  obtain w1 r1 where ez: "extract_zip s w merged_path dest gb cb = (w1, r1)"
    by (cases "extract_zip s w merged_path dest gb cb")
  show ?thesis
  proof (cases "path_exists w1 merged_path")
    case False
    with ez assms show ?thesis
      by (auto simp: extract_merged_def split: sum.splits)
  next
    case True
    with ez assms have "w' = w1\<lparr>files := AList.delete merged_path (files w1)\<rparr>"
      by (auto simp: extract_merged_def os_remove_def split: sum.splits option.splits)
    then show ?thesis by (simp add: path_exists_def delete_conv')
  qed
qed







section \<open>Facts about the older module\<close>

text \<open>
  A missing source path makes \<^verbatim>\<open>os.path.getsize\<close> raise outside the \<^verbatim>\<open>try\<close>, and an
  \<^verbatim>\<open>OSError\<close> raised inside it is not caught.
\<close>

lemma unzipfull_missing_source_raises:
  "\<not> path_exists w archive_path \<Longrightarrow>
   unzipfull_extract_archive s w archive_path dest cb
     = (w, Inl (Exn OSError ''No such file or directory''))"
  by (simp add: unzipfull_extract_archive_def getsize_def path_exists_def)

lemma unzipfull_os_error_escapes:
  assumes "map_of (files w) archive_path = Some content"
    and "unzipfull_body s w archive_path dest (size_gb (length content)) cb = (w', Inl e)"
    and "cls e = OSError"
  shows "unzipfull_extract_archive s w archive_path dest cb = (w', Inl e)"
  using assms by (simp add: unzipfull_extract_archive_def getsize_def)

text \<open>After a failed extraction of a split archive, its merged file stays too.\<close>

lemma unzipfull_merged_file_left:
  "path_exists
     (fst (unzipfull_extract_archive example_sys example_world ''/d/e.zip.001'' ''/out'' None))
     ''/d/e_unido.zip''"
  by code_simp

section \<open>Classification\<close>

text \<open>
  Claim C4. The format is a function of the lower-cased path alone, decided in this
  order: a path ending in \<^verbatim>\<open>.zip\<close>, \<^verbatim>\<open>.rar\<close> or \<^verbatim>\<open>.7z\<close> (in any letter case) is
  Zip, Rar or SevenZip, whether or not \<^verbatim>\<open>.zip.\<close> also occurs in it; a path that
  contains \<^verbatim>\<open>.zip.\<close> and has none of the three endings is SplitZip; every other path
  is Unsupported. The tests are made on the whole path string that the caller passes.
\<close>

theorem classify_by_suffix_then_marker:
  "(lower ext = ''.zip'' \<longrightarrow> classify (q @ ext) = Zip)
   \<and> (lower ext = ''.rar'' \<longrightarrow> classify (q @ ext) = Rar)
   \<and> (lower ext = ''.7z'' \<longrightarrow> classify (q @ ext) = SevenZip)
   \<and> (\<not> endswith (lower p) ''.zip'' \<and> \<not> endswith (lower p) ''.rar''
        \<and> \<not> endswith (lower p) ''.7z''
        \<longrightarrow> classify p = (if contains (lower p) ''.zip.'' then SplitZip else Unsupported))"
proof -
  have ends: "endswith (lower (q @ ext)) (lower ext)"
    by (simp add: lower_def endswith_def suffix_def)
  have "lower ext = ''.zip'' \<Longrightarrow> classify (q @ ext) = Zip"
    using ends by (simp add: classify_def Let_def)
  moreover have "lower ext = ''.rar'' \<Longrightarrow> classify (q @ ext) = Rar"
    using ends endswith_zip_not_rar [of "lower (q @ ext)"] by (auto simp: classify_def Let_def)
  moreover have "lower ext = ''.7z'' \<Longrightarrow> classify (q @ ext) = SevenZip"
    using ends endswith_zip_not_7z [of "lower (q @ ext)"] endswith_rar_not_7z [of "lower (q @ ext)"]
    by (auto simp: classify_def Let_def)
  ultimately show ?thesis
    by (simp add: classify_def Let_def)
qed

theorem classify_by_suffix_then_marker_witness:
  "classify ''/d/x.zip.y.ZIP'' = Zip \<and> classify ''/d/a.zip.RaR'' = Rar
   \<and> classify ''b.zip.7Z'' = SevenZip \<and> classify ''/d/A.ZIP.001'' = SplitZip
   \<and> classify ''/tmp/notes.txt'' = Unsupported"
proof -
  have z: "lower ''.ZIP'' = ''.zip''" and r: "lower ''.RaR'' = ''.rar''"
    and s: "lower ''.7Z'' = ''.7z''"
    by code_simp+
  have n1: "\<not> endswith (lower ''/d/A.ZIP.001'') ''.zip'' \<and> \<not> endswith (lower ''/d/A.ZIP.001'') ''.rar''
      \<and> \<not> endswith (lower ''/d/A.ZIP.001'') ''.7z''"
    by code_simp
  have c1: "contains (lower ''/d/A.ZIP.001'') ''.zip.''"
    by code_simp
  have n2: "\<not> endswith (lower ''/tmp/notes.txt'') ''.zip'' \<and> \<not> endswith (lower ''/tmp/notes.txt'') ''.rar''
      \<and> \<not> endswith (lower ''/tmp/notes.txt'') ''.7z''"
    by code_simp
  have c2: "\<not> contains (lower ''/tmp/notes.txt'') ''.zip.''"
    by code_simp
  show ?thesis
    using classify_by_suffix_then_marker [of "''.ZIP''" "''/d/x.zip.y''" "''/d/A.ZIP.001''"]
      classify_by_suffix_then_marker [of "''.RaR''" "''/d/a.zip''" "''/tmp/notes.txt''"]
      classify_by_suffix_then_marker [of "''.7Z''" "''b.zip''" "''/tmp/notes.txt''"]
      z r s n1 c1 n2 c2
    by simp
qed

section \<open>Progress calls\<close>



section \<open>The size passed to the callback\<close>

text \<open>
  Claim C6. Whatever the format and the outcome of a run of \<^verbatim>\<open>extract_archive\<close>, every
  progress call made during the run carries as third argument the byte length, divided
  by \<open>1024 ^ 3\<close> (\<open>size_gb\<close>), that the source path had when the run started. For a split archive
  this is the size of the path that was passed, not of the merged file nor of all
  segments together.
\<close>

theorem size_of_source_in_every_progress_call:
  assumes "extract_archive s w archive_path dest cb = (w', r)"
  shows "\<exists>evs. events w' = events w @ evs \<and>
    (\<forall>i t g. Progress i t g \<in> set evs \<longrightarrow>
      (\<exists>content. map_of (files w) archive_path = Some content
         \<and> g = size_gb (length content)))"
proof (cases "map_of (files w) archive_path")
  case None
  with assms have "w' = w" by (simp add: extract_archive_def path_exists_def)
  then show ?thesis by simp
next
  case (Some content)
  let ?gb = "size_gb (length content)"
  obtain w1 r1 where d: "dispatch s w archive_path dest ?gb cb = (w1, r1)"
    by (cases "dispatch s w archive_path dest ?gb cb")
  with Some assms have "w' = w1"
    by (auto simp: extract_archive_def path_exists_def getsize_def Let_def
        split: sum.splits if_splits)
  with dispatch_progress [OF d] Some show ?thesis by simp
qed

theorem size_of_source_in_every_progress_call_witness:
  "events (fst (extract_archive example_sys example_world ''/d/b.zip.001'' ''/out'' (Some silent)))
     = [Extracted ''a.txt'' ''/out'', Progress 1 2 (size_gb 2),
        Extracted ''b.txt'' ''/out'', Progress 2 2 (size_gb 2)]
   \<and> (\<exists>content. map_of (files example_world) ''/d/b.zip.001'' = Some content
         \<and> size_gb 2 = size_gb (length content))"
proof -
  define w' where
    "w' = fst (extract_archive example_sys example_world ''/d/b.zip.001'' ''/out'' (Some silent))"
  define r where
    "r = snd (extract_archive example_sys example_world ''/d/b.zip.001'' ''/out'' (Some silent))"
  define g0 :: real where "g0 = size_gb 2"
  have run: "extract_archive example_sys example_world ''/d/b.zip.001'' ''/out'' (Some silent) = (w', r)"
    by (simp add: w'_def r_def)
  have "events w' = [Extracted ''a.txt'' ''/out'', Progress 1 2 (size_gb 2),
        Extracted ''b.txt'' ''/out'', Progress 2 2 (size_gb 2)]"
    unfolding w'_def by code_simp
  then have ev: "events w' = [Extracted ''a.txt'' ''/out'', Progress 1 2 g0,
        Extracted ''b.txt'' ''/out'', Progress 2 2 g0]"
    by (simp only: g0_def)
  have ev0: "events example_world = []"
    by (simp add: example_world_def)
  from size_of_source_in_every_progress_call [OF run] obtain evs where
    app: "events w' = events example_world @ evs"
    and all: "\<forall>i t g. Progress i t g \<in> set evs \<longrightarrow>
      (\<exists>content. map_of (files example_world) ''/d/b.zip.001'' = Some content
         \<and> g = size_gb (length content))"
    by blast
  from app ev ev0 have "evs = [Extracted ''a.txt'' ''/out'', Progress 1 2 g0,
        Extracted ''b.txt'' ''/out'', Progress 2 2 g0]"
    by (simp only: append_Nil)
  then have "Progress 1 2 g0 \<in> set evs"
    by (simp only: list.set insert_iff simp_thms)
  with all have "\<exists>content. map_of (files example_world) ''/d/b.zip.001'' = Some content
         \<and> g0 = size_gb (length content)"
    by blast
  with ev show ?thesis by (simp only: w'_def g0_def simp_thms)
qed

section \<open>A source path that does not exist\<close>

text \<open>
  Claim C8. When the source path does not exist, \<^verbatim>\<open>extract_archive\<close> returns the
  file-not-found message at once: the message carries the path and no size, and the
  world is unchanged, so no callback was called and no file touched.
\<close>

theorem missing_source_reports_not_found:
  assumes "\<not> path_exists w archive_path"
  shows "extract_archive s w archive_path dest cb = (w, Inr (FileNotFound archive_path))"
  using assms by (simp add: extract_archive_def)

theorem missing_source_reports_not_found_witness:
  "\<not> path_exists example_world ''/tmp/does_not_exist.zip''
   \<and> extract_archive example_sys example_world ''/tmp/does_not_exist.zip'' ''/out'' (Some silent)
     = (example_world, Inr (FileNotFound ''/tmp/does_not_exist.zip''))"
proof -
  have absent: "\<not> path_exists example_world ''/tmp/does_not_exist.zip''"
    by code_simp
  from absent missing_source_reports_not_found [OF absent] show ?thesis by simp
qed

section \<open>Joining the segments\<close>

text \<open>
  Claim C5. When the first segment \<^verbatim>\<open>{base_name}.zip.001\<close> exists under the folder and
  no file operation fails, \<^verbatim>\<open>join_zip_parts\<close> takes the segments of the indices 1 to
  \<open>n\<close>, where \<open>n + 1\<close> is the first index with no file, writes the file
  \<^verbatim>\<open>{base_name}_merged.zip\<close> of the same folder with the contents of these segments one
  after the other in ascending order, changes nothing else, and returns the path of
  that file.
\<close>

theorem join_concatenates_leading_segments:
  assumes first: "path_exists w (part_path folder base_name 1)"
    and no_fault: "\<forall>op. fault s op = None"
  shows "\<exists>n contents. 1 \<le> n
    \<and> list_all2 (\<lambda>i content. map_of (files w) (part_path folder base_name i) = Some content)
         [1..<Suc n] contents
    \<and> \<not> path_exists w (part_path folder base_name (Suc n))
    \<and> join_zip_parts s w folder base_name
       = (w\<lparr>files := AList.update (os_path_join folder (base_name @ ''_merged.zip''))
                        (concat contents) (files w)\<rparr>,
          Inr (Some (os_path_join folder (base_name @ ''_merged.zip''))))"
proof -
  define merged where "merged = os_path_join folder (base_name @ ''_merged.zip'')"
  define parts where "parts = find_parts w folder base_name 1 []"
  from find_parts_run [of 1 w folder base_name "[]"] obtain m where
    m: "1 \<le> m" "parts = map (part_path folder base_name) [1..<m]"
    "\<forall>j. 1 \<le> j \<and> j < m \<longrightarrow> path_exists w (part_path folder base_name j)"
    "\<not> path_exists w (part_path folder base_name m)"
    by (auto simp: parts_def)
  from first m(4) have "m \<noteq> 1" by auto
  with m(1) obtain n where n: "m = Suc n" "1 \<le> n" by (cases m) auto
  define idx where "idx = [1..<Suc n]"
  define contents where
    "contents = map (\<lambda>i. the (map_of (files w) (part_path folder base_name i))) idx"
  have parts_idx: "parts = map (part_path folder base_name) idx"
    using m(2) n(1) by (simp only: idx_def)
  have each: "map_of (files w) (part_path folder base_name i)
      = Some (the (map_of (files w) (part_path folder base_name i)))" if "i \<in> set idx" for i
    using that m(3) n(1) by (auto simp: path_exists_def idx_def)
  have stored: "list_all2 (\<lambda>i content. map_of (files w) (part_path folder base_name i) = Some content)
      idx contents"
    unfolding contents_def list_all2_map2 using each by (simp add: list.rel_refl_strong)
  then have stored': "list_all2 (\<lambda>p content. map_of (files w) p = Some content) parts contents"
    by (simp only: parts_idx list_all2_map1)
  have "idx \<noteq> []"
    using n(2) by (simp add: idx_def)
  then have nonempty: "parts \<noteq> []"
    by (simp add: parts_idx)
  define w0 where "w0 = w\<lparr>files := AList.update merged [] (files w)\<rparr>"
  have opened: "open_wb s w merged = (w0, None)"
    using no_fault by (simp add: open_wb_def w0_def)
  have out_notin: "merged \<notin> set parts"
    using merged_path_not_part [of folder base_name] by (auto simp: parts_idx merged_def)
  from stored' have len: "length parts = length contents"
    and nth: "\<forall>i<length parts. map_of (files w) (parts ! i) = Some (contents ! i)"
    by (auto simp: list_all2_conv_all_nth)
  have "\<forall>i<length parts. map_of (files w0) (parts ! i) = Some (contents ! i)"
  proof (intro allI impI)
    fix i assume i: "i < length parts"
    with out_notin have "parts ! i \<noteq> merged" by (metis nth_mem)
    with nth i show "map_of (files w0) (parts ! i) = Some (contents ! i)"
      by (simp add: w0_def update_conv')
  qed
  with len have stored0:
    "list_all2 (\<lambda>p content. map_of (files w0) p = Some content) parts contents"
    by (simp add: list_all2_conv_all_nth)
  have "map_of (files w0) merged = Some []"
    by (simp add: w0_def update_conv')
  with no_fault out_notin stored0
  have "write_parts s w0 merged parts
      = (w0\<lparr>files := AList.update merged ([] @ concat contents) (files w0)\<rparr>, None)"
    by (intro write_parts_ok) simp_all
  with opened have "write_merged s w merged parts
      = (w\<lparr>files := AList.update merged (concat contents) (files w)\<rparr>, None)"
    by (simp add: write_merged_def w0_def)
  with nonempty have "join_zip_parts s w folder base_name
       = (w\<lparr>files := AList.update merged (concat contents) (files w)\<rparr>, Inr (Some merged))"
    by (simp add: join_zip_parts_def Let_def parts_def merged_def)
  with n(2) stored m(4) n(1) show ?thesis
    unfolding idx_def merged_def by blast
qed

theorem join_concatenates_leading_segments_witness:
  "join_zip_parts example_sys example_world ''/d'' ''b''
   = (example_world\<lparr>files := AList.update ''/d/b_merged.zip'' [80, 75, 5, 6, 7]
                                  (files example_world)\<rparr>,
      Inr (Some ''/d/b_merged.zip''))"
proof -
  have first: "path_exists example_world (part_path ''/d'' ''b'' 1)"
    by code_simp
  have no_fault: "\<forall>op. fault example_sys op = None"
    by (simp add: example_sys_def)
  have c1: "map_of (files example_world) (part_path ''/d'' ''b'' 1) = Some [80, 75]"
    and c2: "map_of (files example_world) (part_path ''/d'' ''b'' 2) = Some [5, 6, 7]"
    and c3: "\<not> path_exists example_world (part_path ''/d'' ''b'' 3)"
    and name: "os_path_join ''/d'' (''b'' @ ''_merged.zip'') = ''/d/b_merged.zip''"
    by code_simp+
  from join_concatenates_leading_segments [OF first no_fault] obtain n contents where
    n: "1 \<le> n"
    and stored: "list_all2 (\<lambda>i content. map_of (files example_world) (part_path ''/d'' ''b'' i) = Some content)
         [1..<Suc n] contents"
    and stop: "\<not> path_exists example_world (part_path ''/d'' ''b'' (Suc n))"
    and run: "join_zip_parts example_sys example_world ''/d'' ''b''
       = (example_world\<lparr>files := AList.update (os_path_join ''/d'' (''b'' @ ''_merged.zip''))
                        (concat contents) (files example_world)\<rparr>,
          Inr (Some (os_path_join ''/d'' (''b'' @ ''_merged.zip''))))"
    by blast
  have "n < 3"
  proof (rule ccontr)
    assume "\<not> n < 3"
    then have "3 \<in> set [1..<Suc n]" by auto
    then obtain k where "k < length [1..<Suc n]" "[1..<Suc n] ! k = 3"
      by (auto simp only: in_set_conv_nth)
    with list_all2_nthD [OF stored, of k]
    have "\<exists>content. map_of (files example_world) (part_path ''/d'' ''b'' 3) = Some content"
      by auto
    with c3 show False by (simp add: path_exists_def)
  qed
  moreover have "n \<noteq> 1"
    using stop c2 by (auto simp: path_exists_def numeral_2_eq_2)
  ultimately have "n = 2" using n by arith
  then have idx: "[1..<Suc n] = [1, 2]"
    by (simp add: upt_rec numeral_2_eq_2 numeral_3_eq_3)
  from stored obtain x y where "contents = [x, y]"
    "map_of (files example_world) (part_path ''/d'' ''b'' 1) = Some x"
    "map_of (files example_world) (part_path ''/d'' ''b'' 2) = Some y"
    unfolding idx by (auto simp: list_all2_Cons1)
  with c1 c2 have "concat contents = [80, 75, 5, 6, 7]" by simp
  with run name show ?thesis by (simp only:)
qed

section \<open>A split archive without its first segment\<close>

text \<open>
  Claim C7, amended. When \<^verbatim>\<open>{base_name}.zip.001\<close> does not exist, \<^verbatim>\<open>join_zip_parts\<close>
  returns \<^verbatim>\<open>None\<close> and leaves the world as it was, so it creates no merged file. When
  the source path exists, is dispatched to the split handler, and the first segment of
  its base name does not exist, \<^verbatim>\<open>extract_archive\<close> returns the parts-not-found message
  and leaves the world as it was. The source path has to exist: the existence test of
  \<^verbatim>\<open>extract_archive\<close> comes before the dispatch.
\<close>

theorem missing_first_segment_reports_parts_not_found:
  "(\<not> path_exists w (part_path folder base_name 1)
      \<longrightarrow> join_zip_parts s w folder base_name = (w, Inr None))
   \<and> (map_of (files w) archive_path = Some content \<and> classify archive_path = SplitZip
        \<and> \<not> path_exists w
              (part_path (dirname archive_path) (split_first ''.zip.'' (basename archive_path)) 1)
      \<longrightarrow> extract_archive s w archive_path dest cb
          = (w, Inr (PartsNotFound (basename archive_path) (size_gb (length content)))))"
  using join_zip_parts_none [of w folder base_name s]
    split_without_first_segment [of w archive_path content s dest cb]
  by blast

theorem missing_first_segment_reports_parts_not_found_witness:
  "join_zip_parts example_sys example_world ''/d'' ''f'' = (example_world, Inr None)
   \<and> extract_archive example_sys example_world ''/d/f.zip.002'' ''/out'' (Some silent)
       = (example_world, Inr (PartsNotFound ''f.zip.002'' (size_gb 1)))"
proof -
  have absent: "\<not> path_exists example_world (part_path ''/d'' ''f'' 1)"
    by code_simp
  have source: "map_of (files example_world) ''/d/f.zip.002'' = Some [9]"
    and split: "classify ''/d/f.zip.002'' = SplitZip"
    and folder: "dirname ''/d/f.zip.002'' = ''/d''"
    and base: "split_first ''.zip.'' (basename ''/d/f.zip.002'') = ''f''"
    and name: "basename ''/d/f.zip.002'' = ''f.zip.002''"
    by code_simp+
  from missing_first_segment_reports_parts_not_found
    [of example_world "''/d''" "''f''" example_sys "''/d/f.zip.002''" "[9]" "''/out''" "Some silent"]
    absent source split
  show ?thesis by (simp add: folder base name)
qed

text \<open>
  The claim as it was stated fails when the source path is itself the missing first
  segment: the path is dispatched to no handler at all, and the message is
  file-not-found.
\<close>

theorem missing_first_segment_when_source_missing_counterexample:
  "classify ''/d/zz.zip.001'' = SplitZip
   \<and> part_path (dirname ''/d/zz.zip.001'') (split_first ''.zip.'' (basename ''/d/zz.zip.001'')) 1
       = ''/d/zz.zip.001''
   \<and> \<not> path_exists example_world ''/d/zz.zip.001''
   \<and> extract_archive example_sys example_world ''/d/zz.zip.001'' ''/out'' None
       = (example_world, Inr (FileNotFound ''/d/zz.zip.001''))"
  by code_simp

section \<open>A marker spelled in upper case\<close>

text \<open>
  Claim C9, amended. When the basename of the path does not contain the literal
  \<^verbatim>\<open>.zip.\<close> (the path reached the split handler because its lower-cased form contains
  it), the derived base name is the whole basename, and the joiner looks for
  \<^verbatim>\<open>{basename}.zip.001\<close> in the folder of the path. When moreover the source path
  exists and that file does not, \<^verbatim>\<open>extract_archive\<close> returns the parts-not-found
  message and changes nothing, whatever other files, segments named in upper case among
  them, the folder holds.
\<close>

theorem upper_case_marker_probes_whole_basename:
  "(\<not> contains (basename archive_path) ''.zip.''
      \<longrightarrow> split_first ''.zip.'' (basename archive_path) = basename archive_path
        \<and> part_path (dirname archive_path) (split_first ''.zip.'' (basename archive_path)) 1
            = os_path_join (dirname archive_path) (basename archive_path @ ''.zip.001''))
   \<and> (map_of (files w) archive_path = Some content \<and> classify archive_path = SplitZip
        \<and> \<not> contains (basename archive_path) ''.zip.''
        \<and> \<not> path_exists w
              (os_path_join (dirname archive_path) (basename archive_path @ ''.zip.001''))
      \<longrightarrow> extract_archive s w archive_path dest cb
          = (w, Inr (PartsNotFound (basename archive_path) (size_gb (length content)))))"
proof -
  have whole: "split_first ''.zip.'' (basename archive_path) = basename archive_path"
    if "\<not> contains (basename archive_path) ''.zip.''"
    using that by (rule split_first_absent)
  have probe: "part_path (dirname archive_path) (split_first ''.zip.'' (basename archive_path)) 1
      = os_path_join (dirname archive_path) (basename archive_path @ ''.zip.001'')"
    if "\<not> contains (basename archive_path) ''.zip.''"
    using whole [OF that] by (simp only: part_path_one)
  have "extract_archive s w archive_path dest cb
      = (w, Inr (PartsNotFound (basename archive_path) (size_gb (length content))))"
    if "map_of (files w) archive_path = Some content" "classify archive_path = SplitZip"
      "\<not> contains (basename archive_path) ''.zip.''"
      "\<not> path_exists w
          (os_path_join (dirname archive_path) (basename archive_path @ ''.zip.001''))"
    using that(1,2) that(4) [folded probe [OF that(3)]]
    by (rule split_without_first_segment)
  with whole probe show ?thesis by blast
qed

theorem upper_case_marker_probes_whole_basename_witness:
  "split_first ''.zip.'' (basename ''/d/A.ZIP.001'') = ''A.ZIP.001''
   \<and> part_path (dirname ''/d/A.ZIP.001'') (split_first ''.zip.'' (basename ''/d/A.ZIP.001'')) 1
       = ''/d/A.ZIP.001.zip.001''
   \<and> path_exists example_world ''/d/A.ZIP.001'' \<and> path_exists example_world ''/d/A.ZIP.002''
   \<and> extract_archive example_sys example_world ''/d/A.ZIP.001'' ''/out'' (Some silent)
       = (example_world, Inr (PartsNotFound ''A.ZIP.001'' (size_gb 2)))"
proof -
  have upper: "\<not> contains (basename ''/d/A.ZIP.001'') ''.zip.''"
    and source: "map_of (files example_world) ''/d/A.ZIP.001'' = Some [80, 75]"
    and split: "classify ''/d/A.ZIP.001'' = SplitZip"
    and name: "basename ''/d/A.ZIP.001'' = ''A.ZIP.001''"
    and probe: "os_path_join (dirname ''/d/A.ZIP.001'') (basename ''/d/A.ZIP.001'' @ ''.zip.001'')
      = ''/d/A.ZIP.001.zip.001''"
    and absent: "\<not> path_exists example_world
      (os_path_join (dirname ''/d/A.ZIP.001'') (basename ''/d/A.ZIP.001'' @ ''.zip.001''))"
    and segments: "path_exists example_world ''/d/A.ZIP.001''" "path_exists example_world ''/d/A.ZIP.002''"
    by code_simp+
  note inst = upper_case_marker_probes_whole_basename
    [of "''/d/A.ZIP.001''" example_world "[80, 75]" example_sys "''/out''" "Some silent"]
  from inst upper
  have "split_first ''.zip.'' (basename ''/d/A.ZIP.001'') = basename ''/d/A.ZIP.001''"
    by blast
  also note name
  finally have whole: "split_first ''.zip.'' (basename ''/d/A.ZIP.001'') = ''A.ZIP.001''" .
  from inst upper
  have "part_path (dirname ''/d/A.ZIP.001'') (split_first ''.zip.'' (basename ''/d/A.ZIP.001'')) 1
      = os_path_join (dirname ''/d/A.ZIP.001'') (basename ''/d/A.ZIP.001'' @ ''.zip.001'')"
    by blast
  also note probe
  finally have probed:
    "part_path (dirname ''/d/A.ZIP.001'') (split_first ''.zip.'' (basename ''/d/A.ZIP.001'')) 1
      = ''/d/A.ZIP.001.zip.001''" .
  from inst upper source split absent
  have "extract_archive example_sys example_world ''/d/A.ZIP.001'' ''/out'' (Some silent)
      = (example_world,
         Inr (PartsNotFound (basename ''/d/A.ZIP.001'') (size_gb (length [80, 75 :: 8 word]))))"
    by blast
  also have "\<dots> = (example_world, Inr (PartsNotFound ''A.ZIP.001'' (size_gb 2)))"
    by (simp add: name numeral_2_eq_2)
  finally show ?thesis using whole probed segments by blast
qed

text \<open>
  The claim as it was stated, with the parts-not-found outcome for every such path,
  fails in two cases. When a file \<^verbatim>\<open>{basename}.zip.001\<close> exists, the joiner takes it
  for the first segment and the run succeeds; when the source path does not exist, the
  message is file-not-found.
\<close>

theorem upper_case_marker_outcome_counterexample:
  "classify ''/d/A.ZIP.001'' = SplitZip
   \<and> \<not> contains (basename ''/d/A.ZIP.001'') ''.zip.''
   \<and> path_exists probe_world ''/d/A.ZIP.001''
   \<and> extract_archive example_sys probe_world ''/d/A.ZIP.001'' ''/out'' None
       = (\<lparr>files = files probe_world,
            events = [Extracted ''a.txt'' ''/out'', Extracted ''b.txt'' ''/out'']\<rparr>,
          Inr (SuccessfullyExtracted ''A.ZIP.001_merged.zip'' (size_gb 2)))
   \<and> classify ''/d/B.ZIP.001'' = SplitZip
   \<and> \<not> contains (basename ''/d/B.ZIP.001'') ''.zip.''
   \<and> extract_archive example_sys probe_world ''/d/B.ZIP.001'' ''/out'' None
       = (probe_world, Inr (FileNotFound ''/d/B.ZIP.001''))"
proof (intro conjI)
  show "classify ''/d/A.ZIP.001'' = SplitZip"
    by code_simp
  show "\<not> contains (basename ''/d/A.ZIP.001'') ''.zip.''"
    by code_simp
  show "path_exists probe_world ''/d/A.ZIP.001''"
    by code_simp
  show "extract_archive example_sys probe_world ''/d/A.ZIP.001'' ''/out'' None
       = (\<lparr>files = files probe_world,
            events = [Extracted ''a.txt'' ''/out'', Extracted ''b.txt'' ''/out'']\<rparr>,
          Inr (SuccessfullyExtracted ''A.ZIP.001_merged.zip'' (size_gb 2)))"
    by code_simp
  show "classify ''/d/B.ZIP.001'' = SplitZip"
    by code_simp
  show "\<not> contains (basename ''/d/B.ZIP.001'') ''.zip.''"
    by code_simp
  show "extract_archive example_sys probe_world ''/d/B.ZIP.001'' ''/out'' None
       = (probe_world, Inr (FileNotFound ''/d/B.ZIP.001''))"
    by code_simp
qed

section \<open>An input or output error while joining\<close>

text \<open>
  Claim C10. When the first segment exists and writing the merged file (opening it,
  reading a segment, or writing to it) raises an \<^verbatim>\<open>OSError\<close>, \<^verbatim>\<open>join_zip_parts\<close>
  prints the error and returns \<^verbatim>\<open>None\<close>, the value it returns when there is no
  segment. And whenever \<^verbatim>\<open>join_zip_parts\<close> returns \<^verbatim>\<open>None\<close> for the folder and base
  name of an existing source path that is dispatched to the split handler,
  \<^verbatim>\<open>extract_archive\<close> returns the parts-not-found message, not the error-extracting
  one.
\<close>

theorem join_io_error_reported_as_parts_not_found:
  "(path_exists w (part_path folder base_name 1)
      \<and> write_merged s w (os_path_join folder (base_name @ ''_merged.zip''))
            (find_parts w folder base_name 1 []) = (w1, Some e)
      \<and> cls e = OSError
      \<longrightarrow> join_zip_parts s w folder base_name
          = (w1\<lparr>events := events w1 @ [Printed (str e)]\<rparr>, Inr None))
   \<and> (map_of (files w) archive_path = Some content \<and> classify archive_path = SplitZip
      \<and> join_zip_parts s w (dirname archive_path)
            (split_first ''.zip.'' (basename archive_path)) = (w2, Inr None)
      \<longrightarrow> extract_archive s w archive_path dest cb
          = (w2, Inr (PartsNotFound (basename archive_path) (size_gb (length content)))))"
proof (intro conjI impI)
  assume "path_exists w (part_path folder base_name 1)
      \<and> write_merged s w (os_path_join folder (base_name @ ''_merged.zip''))
            (find_parts w folder base_name 1 []) = (w1, Some e)
      \<and> cls e = OSError"
  then show "join_zip_parts s w folder base_name
      = (w1\<lparr>events := events w1 @ [Printed (str e)]\<rparr>, Inr None)"
    by (intro join_zip_parts_io_error) simp_all
next
  assume "map_of (files w) archive_path = Some content \<and> classify archive_path = SplitZip
      \<and> join_zip_parts s w (dirname archive_path)
            (split_first ''.zip.'' (basename archive_path)) = (w2, Inr None)"
  then show "extract_archive s w archive_path dest cb
      = (w2, Inr (PartsNotFound (basename archive_path) (size_gb (length content))))"
    by (intro split_without_merged_file) simp_all
qed

theorem join_io_error_reported_as_parts_not_found_witness:
  "join_zip_parts disk_full_sys example_world ''/d'' ''b''
   = (\<lparr>files = files example_world @ [(''/d/b_merged.zip'', [])],
       events = [Printed ''No space left on device'']\<rparr>,
      Inr None)
   \<and> extract_archive disk_full_sys example_world ''/d/b.zip.001'' ''/out'' (Some silent)
   = (\<lparr>files = files example_world @ [(''/d/b_merged.zip'', [])],
       events = [Printed ''No space left on device'']\<rparr>,
      Inr (PartsNotFound ''b.zip.001'' (size_gb 2)))"
proof -
  define w1 where "w1 = \<lparr>files = files example_world @ [(''/d/b_merged.zip'', [])],
    events = ([] :: event list)\<rparr>"
  define w2 where "w2 = w1\<lparr>events := events w1 @ [Printed (str (Exn OSError ''No space left on device''))]\<rparr>"
  have source: "map_of (files example_world) ''/d/b.zip.001'' = Some [80, 75]"
    and split: "classify ''/d/b.zip.001'' = SplitZip"
    and folder: "dirname ''/d/b.zip.001'' = ''/d''"
    and base: "split_first ''.zip.'' (basename ''/d/b.zip.001'') = ''b''"
    and first: "path_exists example_world (part_path ''/d'' ''b'' 1)"
    and name: "basename ''/d/b.zip.001'' = ''b.zip.001''"
    by code_simp+
  have failed: "write_merged disk_full_sys example_world (os_path_join ''/d'' (''b'' @ ''_merged.zip''))
           (find_parts example_world ''/d'' ''b'' 1 [])
      = (w1, Some (Exn OSError ''No space left on device''))"
    unfolding w1_def by code_simp
  have os: "cls (Exn OSError ''No space left on device'') = OSError"
    by simp
  note inst = join_io_error_reported_as_parts_not_found
    [of example_world "''/d''" "''b''" disk_full_sys w1 "Exn OSError ''No space left on device''"
      "''/d/b.zip.001''" "[80, 75]" w2 "''/out''" "Some silent"]
  from inst first failed os
  have joined: "join_zip_parts disk_full_sys example_world ''/d'' ''b'' = (w2, Inr None)"
    unfolding w2_def by blast
  then have "join_zip_parts disk_full_sys example_world (dirname ''/d/b.zip.001'')
      (split_first ''.zip.'' (basename ''/d/b.zip.001'')) = (w2, Inr None)"
    by (simp only: folder base)
  with inst source split
  have "extract_archive disk_full_sys example_world ''/d/b.zip.001'' ''/out'' (Some silent)
      = (w2, Inr (PartsNotFound (basename ''/d/b.zip.001'') (size_gb (length [80, 75 :: 8 word]))))"
    by blast
  also have "\<dots> = (\<lparr>files = files example_world @ [(''/d/b_merged.zip'', [])],
       events = [Printed ''No space left on device'']\<rparr>,
      Inr (PartsNotFound ''b.zip.001'' (size_gb 2)))"
    by (simp add: w1_def w2_def name numeral_2_eq_2)
  finally have run: "extract_archive disk_full_sys example_world ''/d/b.zip.001'' ''/out'' (Some silent)
      = (\<lparr>files = files example_world @ [(''/d/b_merged.zip'', [])],
       events = [Printed ''No space left on device'']\<rparr>,
      Inr (PartsNotFound ''b.zip.001'' (size_gb 2)))" .
  have "w2 = \<lparr>files = files example_world @ [(''/d/b_merged.zip'', [])],
       events = [Printed ''No space left on device'']\<rparr>"
    by (simp add: w1_def w2_def)
  with joined run show ?thesis by (simp only: simp_thms)
qed

section \<open>Exceptions at the boundary of the engine\<close>

text \<open>
  Claim C1, amended. An exception that leaves \<^verbatim>\<open>extract_archive\<close> belongs to none of
  the classes \<^verbatim>\<open>BadZipFile\<close>, \<^verbatim>\<open>rarfile.Error\<close>, \<^verbatim>\<open>Bad7zFile\<close> and \<^verbatim>\<open>OSError\<close>; and
  when the dispatched handler raises an exception of one of these four classes,
  \<^verbatim>\<open>extract_archive\<close> returns the error-extracting message with the basename, the size
  and the text of that exception.
\<close>

theorem listed_exceptions_become_messages:
  "(\<forall>e. snd (extract_archive s w archive_path dest cb) = Inl e \<longrightarrow> cls e = OtherException)
   \<and> (map_of (files w) archive_path = Some content
        \<and> dispatch s w archive_path dest (size_gb (length content)) cb = (w1, Inl e1)
        \<and> cls e1 \<noteq> OtherException
      \<longrightarrow> extract_archive s w archive_path dest cb
          = (w1, Inr (ErrorExtracting (basename archive_path) (size_gb (length content)) (str e1))))"
proof -
  have escape: "cls e = OtherException" if "snd (extract_archive s w archive_path dest cb) = Inl e" for e
  proof (cases "map_of (files w) archive_path")
    case None
    with that show ?thesis by (simp add: extract_archive_def path_exists_def)
  next
    case (Some content')
    obtain w' r' where d: "dispatch s w archive_path dest (size_gb (length content')) cb = (w', r')"
      by (cases "dispatch s w archive_path dest (size_gb (length content')) cb")
    show ?thesis
    proof (cases r')
      case (Inr m)
      with d that show ?thesis
        by (simp add: extract_archive_existing [OF Some])
    next
      case (Inl e0)
      show ?thesis
      proof (cases "cls e0 = BadZipFile \<or> cls e0 = RarError \<or> cls e0 = Bad7zFile \<or> cls e0 = OSError")
        case True
        with Inl d that show ?thesis
          by (simp add: extract_archive_existing [OF Some])
      next
        case False
        with Inl d that have "e = e0"
          by (simp add: extract_archive_existing [OF Some])
        with False show ?thesis by (intro other_class) simp_all
      qed
    qed
  qed
  have convert: "extract_archive s w archive_path dest cb
      = (w1, Inr (ErrorExtracting (basename archive_path) (size_gb (length content)) (str e1)))"
    if "map_of (files w) archive_path = Some content"
      "dispatch s w archive_path dest (size_gb (length content)) cb = (w1, Inl e1)"
      "cls e1 \<noteq> OtherException"
  proof -
    from that(3) have "cls e1 = BadZipFile \<or> cls e1 = RarError \<or> cls e1 = Bad7zFile
        \<or> cls e1 = OSError"
      by (cases "cls e1") simp_all
    with that(2) show ?thesis
      by (simp add: extract_archive_existing [OF that(1)])
  qed
  show ?thesis
  proof (intro conjI allI impI)
    fix e assume "snd (extract_archive s w archive_path dest cb) = Inl e"
    then show "cls e = OtherException" by (rule escape)
  next
    assume "map_of (files w) archive_path = Some content
        \<and> dispatch s w archive_path dest (size_gb (length content)) cb = (w1, Inl e1)
        \<and> cls e1 \<noteq> OtherException"
    then show "extract_archive s w archive_path dest cb
      = (w1, Inr (ErrorExtracting (basename archive_path) (size_gb (length content)) (str e1)))"
      by (intro convert) simp_all
  qed
qed

theorem listed_exceptions_become_messages_witness:
  "cls (Exn OtherException ''File secret.txt is encrypted, password required for extraction'')
     = OtherException
   \<and> extract_archive example_sys example_world ''/d/c.zip'' ''/out'' (Some silent)
       = (example_world, Inr (ErrorExtracting ''c.zip'' (size_gb 2) ''File is not a zip file''))"
proof -
  have escaped: "snd (extract_archive encrypted_sys example_world ''/d/a.zip'' ''/out'' None)
      = Inl (Exn OtherException ''File secret.txt is encrypted, password required for extraction'')"
    by code_simp
  have source: "map_of (files example_world) ''/d/c.zip'' = Some [0, 0]"
    and name: "basename ''/d/c.zip'' = ''c.zip''"
    by code_simp+
  have raised: "dispatch example_sys example_world ''/d/c.zip'' ''/out''
      (size_gb (length [0, 0 :: 8 word])) (Some silent)
      = (example_world, Inl (Exn BadZipFile ''File is not a zip file''))"
    by code_simp
  have listed: "cls (Exn BadZipFile ''File is not a zip file'') \<noteq> OtherException"
    by simp
  from listed_exceptions_become_messages
    [of encrypted_sys example_world "''/d/a.zip''" "''/out''" None] escaped
  have first: "cls (Exn OtherException
      ''File secret.txt is encrypted, password required for extraction'') = OtherException"
    by blast
  from listed_exceptions_become_messages
    [of example_sys example_world "''/d/c.zip''" "''/out''" "Some silent" "[0, 0]" example_world
      "Exn BadZipFile ''File is not a zip file''"] source raised listed
  have "extract_archive example_sys example_world ''/d/c.zip'' ''/out'' (Some silent)
      = (example_world, Inr (ErrorExtracting (basename ''/d/c.zip'')
          (size_gb (length [0, 0 :: 8 word])) (str (Exn BadZipFile ''File is not a zip file''))))"
    by blast
  also have "\<dots> = (example_world,
      Inr (ErrorExtracting ''c.zip'' (size_gb 2) ''File is not a zip file''))"
    by (simp add: name numeral_2_eq_2)
  finally show ?thesis using first by blast
qed

text \<open>
  The claim as it was stated fails for an exception of another class: the
  \<^verbatim>\<open>RuntimeError\<close> for an encrypted member passes the \<^verbatim>\<open>except\<close> clause and reaches
  the caller.
\<close>

theorem unlisted_exception_escapes_counterexample:
  "extract_archive encrypted_sys example_world ''/d/a.zip'' ''/out'' None
   = (example_world,
      Inl (Exn OtherException ''File secret.txt is encrypted, password required for extraction''))"
  by code_simp

section \<open>The merged file after the call\<close>

text \<open>
  Claim C2. The claim holds for a run whose extraction succeeds
  (\<open>merged_file_removed_after_success\<close>), and fails for one whose extraction fails:
  \<^verbatim>\<open>os.remove\<close> stands inside the \<^verbatim>\<open>try\<close>, after the extraction, and the
  \<^verbatim>\<open>except\<close> branch returns without it. Here the segment \<^verbatim>\<open>/d/e.zip.001\<close> is no ZIP
  container; the call returns the error-extracting-parts message and the merged file
  \<^verbatim>\<open>/d/e_merged.zip\<close> is still in the file system.
\<close>

theorem merged_file_left_after_failed_extraction:
  "extract_archive example_sys example_world ''/d/e.zip.001'' ''/out'' (Some silent)
   = (\<lparr>files = files example_world @ [(''/d/e_merged.zip'', [1])], events = []\<rparr>,
      Inr (ErrorExtractingParts ''File is not a zip file''))
   \<and> path_exists
        (fst (extract_archive example_sys example_world ''/d/e.zip.001'' ''/out'' (Some silent)))
        ''/d/e_merged.zip''"
proof
  show "extract_archive example_sys example_world ''/d/e.zip.001'' ''/out'' (Some silent)
   = (\<lparr>files = files example_world @ [(''/d/e_merged.zip'', [1])], events = []\<rparr>,
      Inr (ErrorExtractingParts ''File is not a zip file''))"
    by code_simp
  show "path_exists
        (fst (extract_archive example_sys example_world ''/d/e.zip.001'' ''/out'' (Some silent)))
        ''/d/e_merged.zip''"
    by code_simp
qed

end
